theory Spec2Isabelle
  imports Main "HOL-Library.Word" "HOL-Library.Sublist"
begin

section \<open>The upload context of commands/uploader.go\<close>

text \<open>
  The embedding follows \<^verbatim>\<open>src/commands/uploader.go\<close>. Go's \<^verbatim>\<open>int64\<close> is a 64-bit
  word whose addition wraps and which is read as a signed number by \<open>sint\<close>; Go's
  \<^verbatim>\<open>int\<close> (a length or an object count) is a natural number, since a slice never
  has more elements than fit in it. The \<^verbatim>\<open>git.Logger.Printf\<close> lines are diagnostic
  logging and are not part of the model.
\<close>

type_synonym int64 = "64 word"

text \<open>
  \<^verbatim>\<open>lfs.WrappedPointer\<close> is declared outside this file; the code reads its fields
  \<^verbatim>\<open>Oid\<close>, \<^verbatim>\<open>Name\<close> and \<^verbatim>\<open>Size\<close> only.
\<close>

record WrappedPointer =
  Oid :: string
  Name :: string
  Size :: int64

text \<open>
  Modelled from the spec: the errors of package \<^verbatim>\<open>lfs\<close> (not in this file). An error has
  its own message (\<^verbatim>\<open>err.Error()\<close>), optionally an inner cause
  (\<^verbatim>\<open>lfs.GetInnerError\<close>, of which only the message is read), a fatal flag
  (\<^verbatim>\<open>lfs.IsFatalError\<close>), and optionally the structured pointer-mismatch context:
  \<open>CleanPointerOid err = Some a\<close> says that \<^verbatim>\<open>lfs.IsCleanPointerError(err)\<close> holds and
  that the pointer stored under the context key \<^verbatim>\<open>"pointer"\<close> has the oid \<open>a\<close>.
\<close>

datatype lfs_error =
  LfsError (ErrorMsg: string) (GetInnerError: "string option")
           (IsFatalError: bool) (CleanPointerOid: "string option")

text \<open>
  Every call that leaves this file is recorded, in order, in a trace. The type \<open>'u\<close> is
  \<^verbatim>\<open>*lfs.Uploadable\<close>, the materialized unit \<^verbatim>\<open>lfs.NewUploadable\<close> returns.
\<close>

datatype 'u event =
    Print_call string
  | ObjectExistsOfSize_call string int64
  | NewDownloadCheckQueue_call nat int64 bool
  | NewDownloadCheckable_Add_call WrappedPointer
  | Watch_call
  | CheckWait_call
  | NewUploadQueue_call nat int64 bool
  | Skip_call int64
  | NewUploadable_call string string
  | Add_call 'u
  | Wait_call
  | LoggedError_call lfs_error string
  | Error_call string

text \<open>The two queues of package \<^verbatim>\<open>lfs\<close>, as the values this file gives them.\<close>

record DownloadCheckQueue =
  dcq_files :: nat
  dcq_size :: int64
  dcq_flag :: bool
  dcq_added :: "WrappedPointer list"

record 'u TransferQueue =
  tq_files :: nat
  tq_size :: int64
  tq_dryRun :: bool
  tq_skipped :: "int64 list"
  tq_added :: "'u list"

text \<open>
  What the collaborators answer: the local-cache predicate, the stream of oids the check
  queue's \<^verbatim>\<open>Watch()\<close> channel emits until it is closed, materialization, the errors the
  transfer queue reports after \<^verbatim>\<open>Wait()\<close>, and the package variable \<^verbatim>\<open>Debugging\<close>.
\<close>

record 'u lfs_env =
  ObjectExistsOfSize :: "string \<Rightarrow> int64 \<Rightarrow> bool"
  Watch :: "DownloadCheckQueue \<Rightarrow> string list"
  NewUploadable :: "string \<Rightarrow> string \<Rightarrow> lfs_error + 'u"
  Errors :: "'u TransferQueue \<Rightarrow> lfs_error list"
  Debugging :: bool

record uploadContext =
  DryRun :: bool
  uploadedOids :: "string set"

text \<open>The state a call runs in: the upload context together with the trace so far.\<close>

record 'u world = uploadContext +
  trace :: "'u event list"

definition newUploadContext :: "bool \<Rightarrow> uploadContext" where
  "newUploadContext dryRun = \<lparr>DryRun = dryRun, uploadedOids = {}\<rparr>"

definition SetUploaded :: "string \<Rightarrow> 'a uploadContext_scheme \<Rightarrow> 'a uploadContext_scheme" where
  "SetUploaded oid c = c\<lparr>uploadedOids := insert oid (uploadedOids c)\<rparr>"

definition HasUploaded :: "'a uploadContext_scheme \<Rightarrow> string \<Rightarrow> bool" where
  "HasUploaded c oid = (oid \<in> uploadedOids c)"

definition call :: "'u event \<Rightarrow> 'u world \<Rightarrow> 'u world" where
  "call e w = w\<lparr>trace := trace w @ [e]\<rparr>"

text \<open>
  \<^verbatim>\<open>uploadMissingErr\<close> is the format string
  \<^verbatim>\<open>"%s does not exist in .git/lfs/objects. Tried %s, which matches %s."\<close>; applied to
  three strings it is their concatenation with the fixed text.
\<close>

definition uploadMissingErr :: "string \<Rightarrow> string \<Rightarrow> string \<Rightarrow> string" where
  "uploadMissingErr a b c =
     a @ '' does not exist in .git/lfs/objects. Tried '' @ b @ '', which matches '' @ c @ ''.''"

definition push_line :: "WrappedPointer \<Rightarrow> string" where
  "push_line p = ''push '' @ Oid p @ '' => '' @ Name p"

section \<open>prepareUpload\<close>

record classification =
  uploadables :: "WrappedPointer list"
  missingLocalObjects :: "WrappedPointer list"
  numObjects :: nat
  totalSize :: int64
  missingSize :: int64

definition classification0 :: classification where
  "classification0 =
     \<lparr>uploadables = [], missingLocalObjects = [], numObjects = 0, totalSize = 0, missingSize = 0\<rparr>"

text \<open>The first loop of \<^verbatim>\<open>prepareUpload\<close> (lines 48 to 68).\<close>

fun classify ::
  "'u lfs_env \<Rightarrow> 'u world \<Rightarrow> classification \<Rightarrow> WrappedPointer list \<Rightarrow> 'u world \<times> classification"
where
  "classify env w k [] = (w, k)"
| "classify env w k (p # ps) =
     (if HasUploaded w (Oid p) then classify env w k ps
      else
        let k1 = k\<lparr>numObjects := numObjects k + 1, totalSize := totalSize k + Size p\<rparr>;
            w1 = call (ObjectExistsOfSize_call (Oid p) (Size p)) w
        in if ObjectExistsOfSize env (Oid p) (Size p)
           then classify env w1 (k1\<lparr>uploadables := uploadables k1 @ [p]\<rparr>) ps
           else classify env w1
                  (k1\<lparr>missingLocalObjects := missingLocalObjects k1 @ [p],
                      missingSize := missingSize k1 + Size p\<rparr>) ps)"

section \<open>checkMissing\<close>

text \<open>The loop of lines 98 to 100: one checkable is added per missing pointer.\<close>

fun add_checkables ::
  "'u world \<Rightarrow> DownloadCheckQueue \<Rightarrow> WrappedPointer list \<Rightarrow> 'u world \<times> DownloadCheckQueue"
where
  "add_checkables w q [] = (w, q)"
| "add_checkables w q (p # ps) =
     add_checkables (call (NewDownloadCheckable_Add_call p) w)
       (q\<lparr>dcq_added := dcq_added q @ [p]\<rparr>) ps"

text \<open>The body of the collector goroutine: every oid received is marked.\<close>

fun collect :: "'u world \<Rightarrow> string list \<Rightarrow> 'u world" where
  "collect w [] = w"
| "collect w (oid # oids) = collect (SetUploaded oid w) oids"

text \<open>
  \<^verbatim>\<open>checkMissing\<close> returns after \<^verbatim>\<open>checkQueue.Wait()\<close> and after the receive from
  \<^verbatim>\<open>done\<close>, which the collector sends once the channel is closed and drained. The model
  is the sequential result of that: the whole stream is collected before the return.
\<close>

definition checkMissing ::
  "'u lfs_env \<Rightarrow> 'u world \<Rightarrow> WrappedPointer list \<Rightarrow> int64 \<Rightarrow> 'u world"
where
  "checkMissing env w missing msize =
     (let numMissing = length missing in
      if numMissing = 0 then w
      else
        let q0 = \<lparr>dcq_files = numMissing, dcq_size = msize, dcq_flag = True, dcq_added = []\<rparr>;
            w0 = call (NewDownloadCheckQueue_call numMissing msize True) w;
            (w1, checkQueue) = add_checkables w0 q0 missing;
            transferc = Watch env checkQueue;
            w2 = call Watch_call w1;
            w3 = call CheckWait_call w2
        in collect w3 transferc)"

text \<open>The second loop of \<^verbatim>\<open>prepareUpload\<close> (lines 76 to 82).\<close>

fun skip_or_keep ::
  "'u world \<Rightarrow> 'u TransferQueue \<Rightarrow> WrappedPointer list \<Rightarrow> WrappedPointer list \<Rightarrow>
   'u world \<times> 'u TransferQueue \<times> WrappedPointer list"
where
  "skip_or_keep w q ups [] = (w, q, ups)"
| "skip_or_keep w q ups (p # ps) =
     (if HasUploaded w (Oid p)
      then skip_or_keep (call (Skip_call (Size p)) w)
             (q\<lparr>tq_skipped := tq_skipped q @ [Size p]\<rparr>) ups ps
      else skip_or_keep w q (ups @ [p]) ps)"

definition prepareUpload ::
  "'u lfs_env \<Rightarrow> 'u world \<Rightarrow> WrappedPointer list \<Rightarrow>
   'u world \<times> 'u TransferQueue \<times> WrappedPointer list"
where
  "prepareUpload env w unfiltered =
     (let (w1, k) = classify env w classification0 unfiltered;
          w2 = checkMissing env w1 (missingLocalObjects k) (missingSize k);
          uploadQueue = \<lparr>tq_files = numObjects k, tq_size = totalSize k, tq_dryRun = DryRun w2,
                         tq_skipped = [], tq_added = []\<rparr>;
          w3 = call (NewUploadQueue_call (numObjects k) (totalSize k) (DryRun w2)) w2
      in skip_or_keep w3 uploadQueue (uploadables k) (missingLocalObjects k))"

section \<open>upload\<close>

text \<open>
  Modelled from the spec: \<^verbatim>\<open>Exit\<close> and \<^verbatim>\<open>ExitWithError\<close> (package \<^verbatim>\<open>commands\<close>, not in
  this file) abort the batch and do not return, while \<^verbatim>\<open>LoggedError\<close>, \<^verbatim>\<open>Error\<close> and
  \<^verbatim>\<open>Print\<close> report and return. So a call of \<^verbatim>\<open>upload\<close> ends in one of four ways: it
  returns, or the process ends in \<^verbatim>\<open>Exit\<close> (with the formatted message), in
  \<^verbatim>\<open>ExitWithError\<close> (with the error), or in \<^verbatim>\<open>os.Exit\<close> (with the status).
\<close>

datatype outcome =
    Returned
  | Exit string
  | ExitWithError lfs_error
  | os_Exit int

text \<open>The dry-run loop (lines 119 to 126).\<close>

fun dry_run :: "'u world \<Rightarrow> WrappedPointer list \<Rightarrow> 'u world" where
  "dry_run w [] = w"
| "dry_run w (p # ps) =
     (if HasUploaded w (Oid p) then dry_run w ps
      else dry_run (SetUploaded (Oid p) (call (Print_call (push_line p)) w)) ps)"

text \<open>The loop over the working upload list (lines 133 to 145).\<close>

fun enqueue ::
  "'u lfs_env \<Rightarrow> 'u world \<Rightarrow> 'u TransferQueue \<Rightarrow> WrappedPointer list \<Rightarrow>
   'u world \<times> 'u TransferQueue \<times> outcome"
where
  "enqueue env w q [] = (w, q, Returned)"
| "enqueue env w q (p # ps) =
     (let w1 = call (NewUploadable_call (Oid p) (Name p)) w in
      case NewUploadable env (Oid p) (Name p) of
        Inl err \<Rightarrow>
          (case CleanPointerOid err of
             Some actual \<Rightarrow> (w1, q, Exit (uploadMissingErr (Oid p) (Name p) actual))
           | None \<Rightarrow> (w1, q, ExitWithError err))
      | Inr u \<Rightarrow>
          enqueue env (SetUploaded (Oid p) (call (Add_call u) w1))
            (q\<lparr>tq_added := tq_added q @ [u]\<rparr>) ps)"

text \<open>The body of the loop over \<^verbatim>\<open>q.Errors()\<close> (lines 151 to 158), and the loop.\<close>

definition report_one :: "bool \<Rightarrow> lfs_error \<Rightarrow> 'u event list" where
  "report_one debugging err =
     (if debugging \<or> IsFatalError err then [LoggedError_call err (ErrorMsg err)]
      else (case GetInnerError err of Some inner \<Rightarrow> [Error_call inner] | None \<Rightarrow> [])
           @ [Error_call (ErrorMsg err)])"

fun report :: "bool \<Rightarrow> 'u world \<Rightarrow> lfs_error list \<Rightarrow> 'u world" where
  "report debugging w [] = w"
| "report debugging w (err # errs) =
     report debugging (w\<lparr>trace := trace w @ report_one debugging err\<rparr>) errs"

definition upload ::
  "'u lfs_env \<Rightarrow> 'u world \<Rightarrow> WrappedPointer list \<Rightarrow> 'u world \<times> outcome"
where
  "upload env c unfiltered =
     (if DryRun c then (dry_run c unfiltered, Returned)
      else
        let (w1, q, pointers) = prepareUpload env c unfiltered;
            (w2, q2, out) = enqueue env w1 q pointers
        in if out \<noteq> Returned then (w2, out)
           else
             let w3 = call Wait_call w2;
                 w4 = report (Debugging env) w3 (Errors env q2)
             in if length (Errors env q2) > 0 then (w4, os_Exit 2) else (w4, Returned))"

section \<open>Notions used in the statements\<close>

text \<open>
  The candidates the first loop counts: those whose oid is not in the set when
  \<^verbatim>\<open>prepareUpload\<close> starts (the loop itself never changes the set).
\<close>

definition unhandled :: "'a uploadContext_scheme \<Rightarrow> WrappedPointer list \<Rightarrow> WrappedPointer list" where
  "unhandled c ps = filter (\<lambda>p. \<not> HasUploaded c (Oid p)) ps"

definition exists_locally :: "'u lfs_env \<Rightarrow> WrappedPointer \<Rightarrow> bool" where
  "exists_locally env p = ObjectExistsOfSize env (Oid p) (Size p)"

text \<open>
  The positions of a candidate list whose oid is neither in the set \<open>S\<close> nor the oid of
  an earlier position.
\<close>

definition printed_positions :: "string set \<Rightarrow> WrappedPointer list \<Rightarrow> nat list" where
  "printed_positions S ps =
     filter (\<lambda>i. Oid (ps ! i) \<notin> S \<union> Oid ` set (take i ps)) [0..<length ps]"

definition materializes :: "'u lfs_env \<Rightarrow> WrappedPointer \<Rightarrow> bool" where
  "materializes env p = (\<not> isl (NewUploadable env (Oid p) (Name p)))"

text \<open>The two calls a successfully materialized pointer causes.\<close>

definition enqueue_events :: "'u lfs_env \<Rightarrow> WrappedPointer \<Rightarrow> 'u event list" where
  "enqueue_events env p =
     [NewUploadable_call (Oid p) (Name p), Add_call (projr (NewUploadable env (Oid p) (Name p)))]"

text \<open>
  The oids the confirmation stream emits during one call of \<open>checkMissing\<close>: what
  \<^verbatim>\<open>Watch()\<close> of the check queue built there yields, and nothing when no object is
  missing, since then no queue is made.
\<close>

definition confirmed_stream :: "'u lfs_env \<Rightarrow> WrappedPointer list \<Rightarrow> int64 \<Rightarrow> string list" where
  "confirmed_stream env missing msize =
     (if missing = [] then []
      else Watch env \<lparr>dcq_files = length missing, dcq_size = msize, dcq_flag = True,
                       dcq_added = missing\<rparr>)"

text \<open>
  What the first loop puts into \<^verbatim>\<open>uploadables\<close> and into \<^verbatim>\<open>missingLocalObjects\<close>:
  the counted candidates the local cache has, and those it has not.
\<close>

definition locally_present :: "'u lfs_env \<Rightarrow> 'a uploadContext_scheme \<Rightarrow> WrappedPointer list \<Rightarrow> WrappedPointer list" where
  "locally_present env c ps = filter (exists_locally env) (unhandled c ps)"

definition locally_missing :: "'u lfs_env \<Rightarrow> 'a uploadContext_scheme \<Rightarrow> WrappedPointer list \<Rightarrow> WrappedPointer list" where
  "locally_missing env c ps = filter (\<lambda>p. \<not> exists_locally env p) (unhandled c ps)"

text \<open>The arguments of the \<^verbatim>\<open>Skip\<close> calls of a trace, in order.\<close>

fun skip_sizes :: "'u event list \<Rightarrow> int64 list" where
  "skip_sizes [] = []"
| "skip_sizes (Skip_call s # es) = s # skip_sizes es"
| "skip_sizes (e # es) = skip_sizes es"

text \<open>The arguments of the \<^verbatim>\<open>lfs.NewUploadQueue\<close> calls of a trace, in order.\<close>

fun upload_queues_made :: "'u event list \<Rightarrow> (nat \<times> int64 \<times> bool) list" where
  "upload_queues_made [] = []"
| "upload_queues_made (NewUploadQueue_call n t d # es) = (n, t, d) # upload_queues_made es"
| "upload_queues_made (e # es) = upload_queues_made es"

text \<open>
  The state in which \<^verbatim>\<open>checkMissing\<close> returns to \<^verbatim>\<open>prepareUpload\<close> (line 71).
\<close>

definition reconciled :: "'u lfs_env \<Rightarrow> 'u world \<Rightarrow> WrappedPointer list \<Rightarrow> 'u world" where
  "reconciled env w ps =
     checkMissing env (fst (classify env w classification0 ps))
       (locally_missing env w ps) (sum_list (map Size (locally_missing env w ps)))"

text \<open>
  The diagnostic of a failed materialization in the wording of the specification, which
  names \<open>the local object cache\<close> where the format string of the code names
  \<^verbatim>\<open>.git/lfs/objects\<close>.
\<close>

definition spec_missing_message :: "string \<Rightarrow> string \<Rightarrow> string \<Rightarrow> string" where
  "spec_missing_message a b c =
     a @ '' does not exist in the local object cache. Tried '' @ b @ '', which matches '' @ c @ ''.''"

section \<open>Concrete inputs\<close>

text \<open>
  Two objects, and two settings of the collaborators. In \<open>env_confirming\<close> the object
  \<open>A\<close> is in the local cache, the remote store confirms every oid it is asked about,
  every materialization succeeds and the transfer reports no error. In \<open>env_mismatch\<close>
  the remote store confirms nothing, and materializing \<open>B\<close> fails with the
  pointer-mismatch cause, the regeneration having produced the oid \<open>C\<close>.
\<close>

definition ptrA :: WrappedPointer where
  "ptrA = \<lparr>Oid = ''A'', Name = ''a.bin'', Size = 1024\<rparr>"

definition ptrB :: WrappedPointer where
  "ptrB = \<lparr>Oid = ''B'', Name = ''b.bin'', Size = 2048\<rparr>"

definition env_confirming :: "string lfs_env" where
  "env_confirming =
     \<lparr>ObjectExistsOfSize = (\<lambda>oid sz. oid = ''A''),
      Watch = (\<lambda>q. map Oid (dcq_added q)),
      NewUploadable = (\<lambda>oid name. Inr oid),
      Errors = (\<lambda>q. []),
      Debugging = False\<rparr>"

definition env_mismatch :: "string lfs_env" where
  "env_mismatch =
     \<lparr>ObjectExistsOfSize = (\<lambda>oid sz. oid = ''A''),
      Watch = (\<lambda>q. []),
      NewUploadable = (\<lambda>oid name.
         if oid = ''B'' then Inl (LfsError ''clean failed'' None False (Some ''C''))
         else Inr oid),
      Errors = (\<lambda>q. []),
      Debugging = False\<rparr>"

definition real_world :: "string set \<Rightarrow> string world" where
  "real_world S = \<lparr>DryRun = False, uploadedOids = S, trace = []\<rparr>"

definition dry_world :: "string set \<Rightarrow> string world" where
  "dry_world S = \<lparr>DryRun = True, uploadedOids = S, trace = []\<rparr>"

text \<open>
  A third object, two transfer errors (one flagged fatal; one not, with an inner cause),
  and a setting in which every object is in the local cache, every materialization
  succeeds and the transfer queue reports these two errors.
\<close>

definition ptrD :: WrappedPointer where
  "ptrD = \<lparr>Oid = ''D'', Name = ''d.bin'', Size = 7\<rparr>"

definition err_fatal :: lfs_error where
  "err_fatal = LfsError ''boom'' None True None"

definition err_not_found :: lfs_error where
  "err_not_found = LfsError ''not found'' (Some ''404'') False None"

definition env_failing :: "bool \<Rightarrow> string lfs_env" where
  "env_failing debugging =
     \<lparr>ObjectExistsOfSize = (\<lambda>oid sz. True),
      Watch = (\<lambda>q. []),
      NewUploadable = (\<lambda>oid name. Inr oid),
      Errors = (\<lambda>q. [err_fatal, err_not_found]),
      Debugging = debugging\<rparr>"

section \<open>The loops in closed form\<close>

lemma HasUploaded_call [simp]: "HasUploaded (call e w) oid = HasUploaded w oid"
  by (simp add: HasUploaded_def call_def)

lemma uploadedOids_call [simp]: "uploadedOids (call e w) = uploadedOids w"
  by (simp add: call_def)

lemma DryRun_call [simp]: "DryRun (call e w) = DryRun w"
  by (simp add: call_def)

lemma trace_call [simp]: "trace (call e w) = trace w @ [e]"
  by (simp add: call_def)

lemma unhandled_call [simp]: "unhandled (call e w) ps = unhandled w ps"
  by (simp add: unhandled_def)

lemma unhandled_Nil [simp]: "unhandled c [] = []"
  by (simp add: unhandled_def)

lemma unhandled_Cons:
  "unhandled c (p # ps) = (if HasUploaded c (Oid p) then unhandled c ps else p # unhandled c ps)"
  by (simp add: unhandled_def)

lemma classify_uploadedOids: "uploadedOids (fst (classify env w k ps)) = uploadedOids w"
  by (induction ps arbitrary: w k) (simp_all add: Let_def)

lemma classify_DryRun: "DryRun (fst (classify env w k ps)) = DryRun w"
  by (induction ps arbitrary: w k) (simp_all add: Let_def)

lemma classify_trace:
  "trace (fst (classify env w k ps)) =
     trace w @ map (\<lambda>p. ObjectExistsOfSize_call (Oid p) (Size p)) (unhandled w ps)"
  by (induction ps arbitrary: w k) (simp_all add: Let_def unhandled_Cons)

lemma classify_uploadables:
  "uploadables (snd (classify env w k ps)) =
     uploadables k @ filter (exists_locally env) (unhandled w ps)"
  by (induction ps arbitrary: w k) (simp_all add: Let_def unhandled_Cons exists_locally_def)

lemma classify_missing:
  "missingLocalObjects (snd (classify env w k ps)) =
     missingLocalObjects k @ filter (\<lambda>p. \<not> exists_locally env p) (unhandled w ps)"
  by (induction ps arbitrary: w k) (simp_all add: Let_def unhandled_Cons exists_locally_def)

lemma classify_numObjects:
  "numObjects (snd (classify env w k ps)) = numObjects k + length (unhandled w ps)"
  by (induction ps arbitrary: w k) (simp_all add: Let_def unhandled_Cons)

lemma classify_totalSize:
  "totalSize (snd (classify env w k ps)) = totalSize k + sum_list (map Size (unhandled w ps))"
  by (induction ps arbitrary: w k) (simp_all add: Let_def unhandled_Cons add.assoc)

lemma classify_missingSize:
  "missingSize (snd (classify env w k ps)) =
     missingSize k + sum_list (map Size (filter (\<lambda>p. \<not> exists_locally env p) (unhandled w ps)))"
  by (induction ps arbitrary: w k) (simp_all add: Let_def unhandled_Cons exists_locally_def add.assoc)

lemma add_checkables_eq:
  "add_checkables w q ps =
     (w\<lparr>trace := trace w @ map NewDownloadCheckable_Add_call ps\<rparr>, q\<lparr>dcq_added := dcq_added q @ ps\<rparr>)"
  by (induction ps arbitrary: w q) (simp_all add: call_def)

lemma collect_uploadedOids: "uploadedOids (collect w oids) = uploadedOids w \<union> set oids"
  by (induction oids arbitrary: w) (auto simp: SetUploaded_def)

lemma collect_trace: "trace (collect w oids) = trace w"
  by (induction oids arbitrary: w) (simp_all add: SetUploaded_def)

lemma collect_DryRun: "DryRun (collect w oids) = DryRun w"
  by (induction oids arbitrary: w) (simp_all add: SetUploaded_def)

lemma skip_or_keep_world:
  "fst (skip_or_keep w q ups ps) =
     w\<lparr>trace := trace w @ map (\<lambda>p. Skip_call (Size p)) (filter (\<lambda>p. HasUploaded w (Oid p)) ps)\<rparr>"
  by (induction ps arbitrary: w q ups) (simp_all add: call_def HasUploaded_def)

lemma skip_or_keep_queue:
  "fst (snd (skip_or_keep w q ups ps)) =
     q\<lparr>tq_skipped := tq_skipped q @ map Size (filter (\<lambda>p. HasUploaded w (Oid p)) ps)\<rparr>"
  by (induction ps arbitrary: w q ups) simp_all

lemma skip_or_keep_list:
  "snd (snd (skip_or_keep w q ups ps)) = ups @ filter (\<lambda>p. \<not> HasUploaded w (Oid p)) ps"
  by (induction ps arbitrary: w q ups) simp_all

lemma dry_run_uploadedOids: "uploadedOids (dry_run w ps) = uploadedOids w \<union> Oid ` set ps"
  by (induction ps arbitrary: w) (auto simp: SetUploaded_def HasUploaded_def)

lemma dry_run_DryRun: "DryRun (dry_run w ps) = DryRun w"
  by (induction ps arbitrary: w) (simp_all add: SetUploaded_def)

lemma dry_run_handled: "Oid ` set ps \<subseteq> uploadedOids w \<Longrightarrow> dry_run w ps = w"
  by (induction ps arbitrary: w) (simp_all add: HasUploaded_def)

lemma printed_positions_Nil [simp]: "printed_positions S [] = []"
  by (simp add: printed_positions_def)

lemma printed_positions_Cons:
  "printed_positions S (p # ps) =
     (if Oid p \<in> S then [] else [0]) @ map Suc (printed_positions (insert (Oid p) S) ps)"
proof -
  have "[0..<length (p # ps)] = 0 # map Suc [0..<length ps]"
    by (simp add: upt_conv_Cons map_Suc_upt del: upt_Suc)
  then show ?thesis
    by (auto simp add: printed_positions_def filter_map comp_def simp del: upt_Suc
             intro!: filter_cong)
qed

lemma printed_positions_handled:
  "Oid p \<in> S \<Longrightarrow> printed_positions (insert (Oid p) S) ps = printed_positions S ps"
  by (simp add: insert_absorb)

lemma dry_run_trace:
  "trace (dry_run w ps) =
     trace w @ map (\<lambda>i. Print_call (push_line (ps ! i))) (printed_positions (uploadedOids w) ps)"
proof (induction ps arbitrary: w)
  case Nil
  then show ?case by simp
next
  case (Cons p ps)
  show ?case
  proof (cases "HasUploaded w (Oid p)")
    case True
    then have "Oid p \<in> uploadedOids w" by (simp add: HasUploaded_def)
    then show ?thesis
      using Cons.IH [of w] True
      by (simp add: printed_positions_Cons insert_absorb comp_def)
  next
    case False
    then have "Oid p \<notin> uploadedOids w" by (simp add: HasUploaded_def)
    then show ?thesis
      using Cons.IH [of "SetUploaded (Oid p) (call (Print_call (push_line p)) w)"] False
      by (simp add: printed_positions_Cons comp_def SetUploaded_def)
  qed
qed

lemma dry_run_world:
  "dry_run w ps =
     w\<lparr>uploadedOids := uploadedOids w \<union> Oid ` set ps,
       trace := trace w @ map (\<lambda>i. Print_call (push_line (ps ! i)))
                              (printed_positions (uploadedOids w) ps)\<rparr>"
  by (rule world.equality) (simp_all add: dry_run_uploadedOids dry_run_DryRun dry_run_trace)

lemma enqueue_uploadedOids_mono: "uploadedOids w \<subseteq> uploadedOids (fst (enqueue env w q ps))"
proof (induction ps arbitrary: w q)
  case Nil
  then show ?case by simp
next
  case (Cons p ps)
  show ?case
  proof (cases "NewUploadable env (Oid p) (Name p)")
    case (Inl err)
    then show ?thesis by (simp add: Let_def split: option.splits)
  next
    case (Inr u)
    have "uploadedOids w \<subseteq> uploadedOids (SetUploaded (Oid p) (call (Add_call u) (call (NewUploadable_call (Oid p) (Name p)) w)))"
      by (auto simp: SetUploaded_def)
    also have "\<dots> \<subseteq> uploadedOids (fst (enqueue env (SetUploaded (Oid p) (call (Add_call u) (call (NewUploadable_call (Oid p) (Name p)) w))) (q\<lparr>tq_added := tq_added q @ [u]\<rparr>) ps))"
      by (rule Cons.IH)
    finally show ?thesis using Inr by (simp add: Let_def)
  qed
qed

lemma enqueue_all:
  "list_all (materializes env) ps \<Longrightarrow>
   enqueue env w q ps =
     (w\<lparr>uploadedOids := uploadedOids w \<union> Oid ` set ps,
        trace := trace w @ concat (map (enqueue_events env) ps)\<rparr>,
      q\<lparr>tq_added := tq_added q @ map (\<lambda>p. projr (NewUploadable env (Oid p) (Name p))) ps\<rparr>,
      Returned)"
proof (induction ps arbitrary: w q)
  case Nil
  then show ?case by simp
next
  case (Cons p ps)
  from Cons.prems obtain u where u: "NewUploadable env (Oid p) (Name p) = Inr u"
    by (cases "NewUploadable env (Oid p) (Name p)") (simp_all add: materializes_def)
  from Cons.prems have rest: "list_all (materializes env) ps" by simp
  have s: "insert (Oid p) (uploadedOids w) \<union> Oid ` set PS = uploadedOids w \<union> insert (Oid p) (Oid ` set PS)" for PS :: "WrappedPointer list"
    by auto
  show ?case
    using u Cons.IH [OF rest]
    by (simp add: Let_def SetUploaded_def call_def enqueue_events_def s)
qed

lemma enqueue_append:
  "list_all (materializes env) pre \<Longrightarrow>
   enqueue env w q (pre @ rest) =
     enqueue env
       (w\<lparr>uploadedOids := uploadedOids w \<union> Oid ` set pre,
          trace := trace w @ concat (map (enqueue_events env) pre)\<rparr>)
       (q\<lparr>tq_added := tq_added q @ map (\<lambda>p. projr (NewUploadable env (Oid p) (Name p))) pre\<rparr>)
       rest"
proof (induction pre arbitrary: w q)
  case Nil
  then show ?case by simp
next
  case (Cons p pre)
  from Cons.prems obtain u where u: "NewUploadable env (Oid p) (Name p) = Inr u"
    by (cases "NewUploadable env (Oid p) (Name p)") (simp_all add: materializes_def)
  from Cons.prems have rest: "list_all (materializes env) pre" by simp
  have s: "insert (Oid p) (uploadedOids w) \<union> Oid ` set PS = uploadedOids w \<union> insert (Oid p) (Oid ` set PS)" for PS :: "WrappedPointer list"
    by auto
  show ?case
    using u Cons.IH [OF rest]
    by (simp add: Let_def SetUploaded_def call_def enqueue_events_def s)
qed

lemma enqueue_fails:
  "NewUploadable env (Oid p) (Name p) = Inl err \<Longrightarrow>
   enqueue env w q (p # post) =
     (call (NewUploadable_call (Oid p) (Name p)) w, q,
      case CleanPointerOid err of
        Some actual \<Rightarrow> Exit (uploadMissingErr (Oid p) (Name p) actual)
      | None \<Rightarrow> ExitWithError err)"
  by (simp add: Let_def split: option.splits)

lemma report_uploadedOids: "uploadedOids (report d w errs) = uploadedOids w"
  by (induction errs arbitrary: w) simp_all

lemma report_eq: "report d w errs = w\<lparr>trace := trace w @ concat (map (report_one d) errs)\<rparr>"
  by (induction errs arbitrary: w) simp_all

lemma checkMissing_uploadedOids:
  "uploadedOids (checkMissing env w missing msize) =
     uploadedOids w \<union>
       (if missing = [] then {}
        else set (Watch env \<lparr>dcq_files = length missing, dcq_size = msize, dcq_flag = True,
                              dcq_added = missing\<rparr>))"
  by (simp add: checkMissing_def Let_def add_checkables_eq collect_uploadedOids)

lemma checkMissing_DryRun: "DryRun (checkMissing env w missing msize) = DryRun w"
  by (simp add: checkMissing_def Let_def add_checkables_eq collect_DryRun)

lemma checkMissing_trace:
  "trace (checkMissing env w missing msize) =
     trace w @
       (if missing = [] then []
        else NewDownloadCheckQueue_call (length missing) msize True
             # map NewDownloadCheckable_Add_call missing @ [Watch_call, CheckWait_call])"
  by (simp add: checkMissing_def Let_def add_checkables_eq collect_trace)

lemma checkMissing_mono: "uploadedOids w \<subseteq> uploadedOids (checkMissing env w missing msize)"
  by (simp add: checkMissing_uploadedOids)

lemma skip_or_keep_uploadedOids: "uploadedOids (fst (skip_or_keep w q ups ps)) = uploadedOids w"
  by (simp add: skip_or_keep_world)

lemma prepareUpload_uploadedOids:
  "uploadedOids (fst (prepareUpload env w ps)) =
     uploadedOids (checkMissing env (fst (classify env w classification0 ps))
        (missingLocalObjects (snd (classify env w classification0 ps)))
        (missingSize (snd (classify env w classification0 ps))))"
  by (simp add: prepareUpload_def Let_def split_beta skip_or_keep_uploadedOids)

lemma prepareUpload_mono: "uploadedOids w \<subseteq> uploadedOids (fst (prepareUpload env w ps))"
proof -
  have "uploadedOids w = uploadedOids (fst (classify env w classification0 ps))"
    by (simp add: classify_uploadedOids)
  then show ?thesis
    unfolding prepareUpload_uploadedOids using checkMissing_mono by blast
qed

lemma upload_mono: "uploadedOids w \<subseteq> uploadedOids (fst (upload env w ps))"
proof (cases "DryRun w")
  case True
  then show ?thesis by (simp add: upload_def dry_run_uploadedOids)
next
  case False
  obtain w1 q pointers where p: "prepareUpload env w ps = (w1, q, pointers)"
    by (cases "prepareUpload env w ps") auto
  obtain w2 q2 out where e: "enqueue env w1 q pointers = (w2, q2, out)"
    by (cases "enqueue env w1 q pointers") auto
  have a: "uploadedOids w \<subseteq> uploadedOids w1"
    using prepareUpload_mono [of w env ps] p by simp
  have b: "uploadedOids w1 \<subseteq> uploadedOids w2"
    using enqueue_uploadedOids_mono [of w1 env q pointers] e by simp
  have "uploadedOids (fst (upload env w ps)) = uploadedOids w2"
    using False p e by (simp add: upload_def Let_def report_uploadedOids)
  with a b show ?thesis by simp
qed

section \<open>The dedup set only grows\<close>

text \<open>
  Claim C9. The set \<open>uploadedOids\<close> is monotone: \<open>SetUploaded\<close>, the classification loop,
  \<open>checkMissing\<close>, \<open>prepareUpload\<close>, the dry-run loop, the enqueue loop and \<open>upload\<close> in
  either mode and with any outcome leave every oid of the set in the set
  (\<open>HasUploaded\<close> returns a truth value and no state, so it changes nothing); hence an
  oid for which \<open>HasUploaded\<close> holds before \<open>upload\<close> still has it afterwards.
\<close>

theorem dedup_set_monotone:
  "uploadedOids c \<subseteq> uploadedOids (SetUploaded oid c)
   \<and> uploadedOids w \<subseteq> uploadedOids (fst (classify env w k ps))
   \<and> uploadedOids w \<subseteq> uploadedOids (checkMissing env w missing msize)
   \<and> uploadedOids w \<subseteq> uploadedOids (fst (prepareUpload env w ps))
   \<and> uploadedOids w \<subseteq> uploadedOids (dry_run w ps)
   \<and> uploadedOids w \<subseteq> uploadedOids (fst (enqueue env w q ps))
   \<and> uploadedOids w \<subseteq> uploadedOids (fst (upload env w ps))
   \<and> (HasUploaded w x \<longrightarrow> HasUploaded (fst (upload env w ps)) x)"
proof -
  have 1: "uploadedOids c \<subseteq> uploadedOids (SetUploaded oid c)"
    by (auto simp: SetUploaded_def)
  have 2: "uploadedOids w \<subseteq> uploadedOids (fst (classify env w k ps))"
    by (simp add: classify_uploadedOids)
  have 5: "uploadedOids w \<subseteq> uploadedOids (dry_run w ps)"
    by (simp add: dry_run_uploadedOids)
  have 8: "HasUploaded w x \<longrightarrow> HasUploaded (fst (upload env w ps)) x"
    using upload_mono [of w env ps] by (auto simp: HasUploaded_def)
  from 1 2 5 8 show ?thesis
    by (simp add: checkMissing_mono prepareUpload_mono enqueue_uploadedOids_mono upload_mono)
qed

theorem dedup_set_monotone_witness:
  "HasUploaded (real_world {''B''}) ''B''
   \<and> HasUploaded (fst (upload env_confirming (real_world {''B''}) [ptrA])) ''B''"
proof -
  have h: "HasUploaded (real_world {''B''}) ''B''"
    by (simp add: HasUploaded_def real_world_def)
  have "HasUploaded (real_world {''B''}) ''B'' \<longrightarrow>
        HasUploaded (fst (upload env_confirming (real_world {''B''}) [ptrA])) ''B''"
    using dedup_set_monotone [where w = "real_world {''B''}" and x = "''B''"
      and env = env_confirming and ps = "[ptrA]" and c = "real_world {''B''}" and oid = "''A''"
      and k = classification0 and missing = "[]" and msize = 0
      and q = "\<lparr>tq_files = 0, tq_size = 0, tq_dryRun = False, tq_skipped = [], tq_added = []\<rparr>"]
    by blast
  with h show ?thesis by simp
qed

section \<open>Dry run\<close>

text \<open>
  Claim C6. In dry-run mode \<open>upload\<close> returns normally, and all it has done is this: for
  each position of the input whose oid was not in the set at the start and does not occur
  at an earlier position, one line \<open>push <oid> => <name>\<close> was printed, in input order,
  and the oids of the input are in the set. The trace gains no other call: no query of
  the local cache, no check queue, no transfer queue, no materialization; and the result
  is the same whatever the collaborators would answer.
\<close>

theorem dry_run_upload:
  assumes "DryRun c"
  shows "upload env c unfiltered =
           (c\<lparr>uploadedOids := uploadedOids c \<union> Oid ` set unfiltered,
              trace := trace c @ map (\<lambda>i. Print_call (push_line (unfiltered ! i)))
                                     (printed_positions (uploadedOids c) unfiltered)\<rparr>,
            Returned)
         \<and> upload env c unfiltered = upload env' c unfiltered"
  using assms by (simp add: upload_def dry_run_world)

theorem dry_run_upload_witness:
  "DryRun (dry_world {''B''})
   \<and> upload env_mismatch (dry_world {''B''}) [ptrA, ptrB, ptrA] =
       (\<lparr>DryRun = True, uploadedOids = {''A'', ''B''}, trace = [Print_call ''push A => a.bin'']\<rparr>,
        Returned)"
proof -
  have h: "DryRun (dry_world {''B''})" by (simp add: dry_world_def)
  show ?thesis
    using h dry_run_upload [OF h, of env_mismatch "[ptrA, ptrB, ptrA]" env_mismatch]
    by (simp add: dry_world_def ptrA_def ptrB_def printed_positions_def push_line_def
          upt_rec [of 0] upt_rec [of 1] upt_rec [of 2] upt_rec [of 3] insert_commute)
qed

text \<open>
  Claim C10. After a dry-run \<open>upload\<close> of a list \<open>L\<close> every oid of \<open>L\<close> is in the set, and
  a second dry-run \<open>upload\<close> on the resulting context, of \<open>L\<close> itself or of any list made
  of elements of \<open>L\<close>, returns the context as it was: no line printed, the set unchanged.
\<close>

theorem dry_run_idempotent:
  assumes "DryRun c" and "set L' \<subseteq> set L"
  shows "Oid ` set L \<subseteq> uploadedOids (fst (upload env c L))
         \<and> upload env (fst (upload env c L)) L' = (fst (upload env c L), Returned)"
proof -
  have u: "fst (upload env c L) = dry_run c L"
    using assms(1) by (simp add: upload_def)
  have d: "DryRun (dry_run c L)"
    using assms(1) by (simp add: dry_run_DryRun)
  have s: "Oid ` set L' \<subseteq> uploadedOids (dry_run c L)"
    using assms(2) by (auto simp: dry_run_uploadedOids)
  have "upload env (dry_run c L) L' = (dry_run c L, Returned)"
    using d dry_run_handled [OF s] by (simp add: upload_def)
  then show ?thesis
    by (simp add: u dry_run_uploadedOids)
qed

theorem dry_run_idempotent_witness:
  "DryRun (dry_world {}) \<and> set [ptrB] \<subseteq> set [ptrA, ptrB]
   \<and> upload env_mismatch (fst (upload env_mismatch (dry_world {}) [ptrA, ptrB])) [ptrB] =
       (\<lparr>DryRun = True, uploadedOids = {''A'', ''B''},
         trace = [Print_call ''push A => a.bin'', Print_call ''push B => b.bin'']\<rparr>, Returned)"
proof -
  have h: "DryRun (dry_world {})" by (simp add: dry_world_def)
  have s: "set [ptrB] \<subseteq> set [ptrA, ptrB]" by simp
  have e: "fst (upload env_mismatch (dry_world {}) [ptrA, ptrB]) =
       \<lparr>DryRun = True, uploadedOids = {''A'', ''B''},
         trace = [Print_call ''push A => a.bin'', Print_call ''push B => b.bin'']\<rparr>"
    by (simp add: upload_def dry_world_def ptrA_def ptrB_def HasUploaded_def SetUploaded_def
          call_def push_line_def insert_commute)
  show ?thesis
    using h s e dry_run_idempotent [OF h s, of env_mismatch] by simp
qed

section \<open>Reconciliation with the remote store\<close>

text \<open>
  Claim C2. When \<open>checkMissing\<close> has returned, the set is the set from before together
  with the oids the confirmation stream emitted: every emitted oid satisfies
  \<open>HasUploaded\<close>, and an oid that satisfies it now and did not before was emitted.
\<close>

theorem checkMissing_marks_confirmed:
  "uploadedOids (checkMissing env w missing msize) =
     uploadedOids w \<union> set (confirmed_stream env missing msize)
   \<and> (\<forall>oid \<in> set (confirmed_stream env missing msize).
         HasUploaded (checkMissing env w missing msize) oid)
   \<and> (\<forall>oid. HasUploaded (checkMissing env w missing msize) oid \<and> \<not> HasUploaded w oid
         \<longrightarrow> oid \<in> set (confirmed_stream env missing msize))"
  by (auto simp: checkMissing_uploadedOids confirmed_stream_def HasUploaded_def)

theorem checkMissing_marks_confirmed_witness:
  "confirmed_stream env_confirming [ptrB] 2048 = [''B'']
   \<and> \<not> HasUploaded (real_world {''A''}) ''B''
   \<and> HasUploaded (checkMissing env_confirming (real_world {''A''}) [ptrB] 2048) ''B''
   \<and> uploadedOids (checkMissing env_confirming (real_world {''A''}) [ptrB] 2048) = {''A'', ''B''}"
proof -
  have c: "confirmed_stream env_confirming [ptrB] 2048 = [''B'']"
    by (simp add: confirmed_stream_def env_confirming_def ptrB_def)
  have n: "\<not> HasUploaded (real_world {''A''}) ''B''"
    by (simp add: HasUploaded_def real_world_def)
  show ?thesis
    using c n checkMissing_marks_confirmed [of env_confirming "real_world {''A''}" "[ptrB]" 2048]
    by (auto simp: real_world_def)
qed

lemma skip_sizes_append: "skip_sizes (es @ fs) = skip_sizes es @ skip_sizes fs"
  by (induction es rule: skip_sizes.induct) simp_all

lemma skip_sizes_exists [simp]:
  "skip_sizes (map (\<lambda>p. ObjectExistsOfSize_call (Oid p) (Size p)) ps) = []"
  by (induction ps) simp_all

lemma skip_sizes_checkables [simp]: "skip_sizes (map NewDownloadCheckable_Add_call ps) = []"
  by (induction ps) simp_all

lemma skip_sizes_skips [simp]: "skip_sizes (map (\<lambda>p. Skip_call (Size p)) ps) = map Size ps"
  by (induction ps) simp_all

lemma upload_queues_made_append:
  "upload_queues_made (es @ fs) = upload_queues_made es @ upload_queues_made fs"
  by (induction es rule: upload_queues_made.induct) simp_all

lemma upload_queues_made_exists [simp]:
  "upload_queues_made (map (\<lambda>p. ObjectExistsOfSize_call (Oid p) (Size p)) ps) = []"
  by (induction ps) simp_all

lemma upload_queues_made_checkables [simp]:
  "upload_queues_made (map NewDownloadCheckable_Add_call ps) = []"
  by (induction ps) simp_all

lemma upload_queues_made_skips [simp]:
  "upload_queues_made (map (\<lambda>p. Skip_call (Size p)) ps) = []"
  by (induction ps) simp_all

lemma classify_world:
  "fst (classify env w k ps) =
     w\<lparr>trace := trace w @ map (\<lambda>p. ObjectExistsOfSize_call (Oid p) (Size p)) (unhandled w ps)\<rparr>"
  by (rule world.equality) (simp_all add: classify_trace classify_uploadedOids classify_DryRun)

lemma classify_initial:
  "snd (classify env w classification0 ps) =
     \<lparr>uploadables = locally_present env w ps,
      missingLocalObjects = locally_missing env w ps,
      numObjects = length (unhandled w ps),
      totalSize = sum_list (map Size (unhandled w ps)),
      missingSize = sum_list (map Size (locally_missing env w ps))\<rparr>"
  by (rule classification.equality)
     (simp_all add: classify_uploadables classify_missing classify_numObjects classify_totalSize
        classify_missingSize classification0_def locally_present_def locally_missing_def)

lemma prepareUpload_eq:
  "prepareUpload env w ps =
     (let w2 = reconciled env w ps;
          confirmed = filter (\<lambda>p. HasUploaded w2 (Oid p)) (locally_missing env w ps)
      in (w2\<lparr>trace := trace w2 @
                 NewUploadQueue_call (length (unhandled w ps))
                   (sum_list (map Size (unhandled w ps))) (DryRun w)
                 # map (\<lambda>p. Skip_call (Size p)) confirmed\<rparr>,
          \<lparr>tq_files = length (unhandled w ps), tq_size = sum_list (map Size (unhandled w ps)),
           tq_dryRun = DryRun w, tq_skipped = map Size confirmed, tq_added = []\<rparr>,
          locally_present env w ps @
            filter (\<lambda>p. \<not> HasUploaded w2 (Oid p)) (locally_missing env w ps)))"
proof -
  obtain w1 k where c: "classify env w classification0 ps = (w1, k)"
    by (cases "classify env w classification0 ps") auto
  have k: "k = \<lparr>uploadables = locally_present env w ps,
      missingLocalObjects = locally_missing env w ps,
      numObjects = length (unhandled w ps),
      totalSize = sum_list (map Size (unhandled w ps)),
      missingSize = sum_list (map Size (locally_missing env w ps))\<rparr>"
    using classify_initial [of env w ps] c by simp
  have w1: "w1 = fst (classify env w classification0 ps)"
    using c by simp
  have d: "DryRun (reconciled env w ps) = DryRun w"
    by (simp add: reconciled_def checkMissing_DryRun classify_DryRun)
  let ?e = "NewUploadQueue_call (length (unhandled w ps))
              (sum_list (map Size (unhandled w ps))) (DryRun w)"
  let ?q = "\<lparr>tq_files = length (unhandled w ps), tq_size = sum_list (map Size (unhandled w ps)),
             tq_dryRun = DryRun w, tq_skipped = [], tq_added = []\<rparr> :: 'a TransferQueue"
  let ?w2 = "reconciled env w ps"
  let ?r = "skip_or_keep (call ?e ?w2) ?q (locally_present env w ps) (locally_missing env w ps)"
  have p: "prepareUpload env w ps = ?r"
    unfolding prepareUpload_def c by (simp add: Let_def k w1 reconciled_def [symmetric] d)
  have 1: "fst ?r = ?w2\<lparr>trace := trace ?w2 @ ?e # map (\<lambda>p. Skip_call (Size p))
                (filter (\<lambda>p. HasUploaded ?w2 (Oid p)) (locally_missing env w ps))\<rparr>"
    unfolding skip_or_keep_world by (simp add: call_def HasUploaded_def)
  have 2: "fst (snd ?r) = ?q\<lparr>tq_skipped := map Size
                (filter (\<lambda>p. HasUploaded ?w2 (Oid p)) (locally_missing env w ps))\<rparr>"
    unfolding skip_or_keep_queue by simp
  have 3: "snd (snd ?r) = locally_present env w ps @
            filter (\<lambda>p. \<not> HasUploaded ?w2 (Oid p)) (locally_missing env w ps)"
    unfolding skip_or_keep_list by simp
  have "?r = (fst ?r, fst (snd ?r), snd (snd ?r))"
    by simp
  then show ?thesis
    unfolding p 1 2 3 by (simp add: Let_def)
qed

lemma reconciled_trace:
  "trace (reconciled env w ps) =
     trace w @ map (\<lambda>p. ObjectExistsOfSize_call (Oid p) (Size p)) (unhandled w ps) @
       (if locally_missing env w ps = [] then []
        else NewDownloadCheckQueue_call (length (locally_missing env w ps))
               (sum_list (map Size (locally_missing env w ps))) True
             # map NewDownloadCheckable_Add_call (locally_missing env w ps)
             @ [Watch_call, CheckWait_call])"
  by (simp add: reconciled_def checkMissing_trace classify_trace)

lemma sint_sum_list:
  fixes xs :: "int64 list"
  assumes "\<forall>x \<in> set xs. 0 \<le> sint x" and "sum_list (map sint xs) < 2 ^ 63"
  shows "sint (sum_list xs) = sum_list (map sint xs)"
  using assms
proof (induction xs)
  case Nil
  then show ?case by simp
next
  case (Cons x xs)
  have x0: "0 \<le> sint x" using Cons.prems(1) by simp
  have r0: "0 \<le> sum_list (map sint xs)"
    using Cons.prems(1) by (intro sum_list_nonneg) auto
  have r1: "sum_list (map sint xs) < 2 ^ 63"
    using Cons.prems(2) x0 by simp
  have ih: "sint (sum_list xs) = sum_list (map sint xs)"
    using Cons.IH Cons.prems(1) r1 by simp
  have "sint (x + sum_list xs) = signed_take_bit 63 (sint x + sint (sum_list xs))"
    by (simp add: sint_word_ariths)
  also have "\<dots> = sint x + sum_list (map sint xs)"
    unfolding ih using x0 r0 Cons.prems(2)
    by (intro signed_take_bit_int_eq_self) simp_all
  finally show ?case by simp
qed

lemma sum_list_filter_le_int:
  fixes f :: "'a \<Rightarrow> int"
  assumes "\<forall>x \<in> set xs. 0 \<le> f x"
  shows "sum_list (map f (filter P xs)) \<le> sum_list (map f xs)"
  using assms by (induction xs) (auto simp: add_increasing)

lemmas eval_defs = upload_def prepareUpload_def checkMissing_def classification0_def
  HasUploaded_def SetUploaded_def call_def push_line_def uploadMissingErr_def report_one_def
  Let_def

section \<open>Skipping what the remote store confirmed\<close>

text \<open>
  Claim C4. Let \<open>prepareUpload\<close> return the state \<open>w'\<close>, the queue \<open>q\<close> and the working
  list. The \<^verbatim>\<open>Skip\<close> calls it made are, in order, one per locally-missing object whose
  oid is marked in \<open>w'\<close>, each with that object's size (and the queue has recorded the
  same); no such object is in the working list; and the working list is the
  locally-present objects followed by the locally-missing objects whose oid is not
  marked. The marks of \<open>w'\<close> are those from before together with the confirmed oids.
\<close>

theorem prepareUpload_skips_confirmed:
  assumes "prepareUpload env w unfiltered = (w', q, working)"
  shows "working = locally_present env w unfiltered @
           filter (\<lambda>p. \<not> HasUploaded w' (Oid p)) (locally_missing env w unfiltered)
   \<and> take (length (trace w)) (trace w') = trace w
   \<and> skip_sizes (drop (length (trace w)) (trace w')) =
       map Size (filter (\<lambda>p. HasUploaded w' (Oid p)) (locally_missing env w unfiltered))
   \<and> tq_skipped q =
       map Size (filter (\<lambda>p. HasUploaded w' (Oid p)) (locally_missing env w unfiltered))
   \<and> (\<forall>p \<in> set (locally_missing env w unfiltered). HasUploaded w' (Oid p) \<longrightarrow> p \<notin> set working)
   \<and> uploadedOids w' = uploadedOids w \<union>
       set (confirmed_stream env (locally_missing env w unfiltered)
              (sum_list (map Size (locally_missing env w unfiltered))))"
proof -
  let ?w2 = "reconciled env w unfiltered"
  let ?M = "locally_missing env w unfiltered"
  let ?conf = "filter (\<lambda>p. HasUploaded ?w2 (Oid p)) ?M"
  from assms have w': "w' = ?w2\<lparr>trace := trace ?w2 @
        NewUploadQueue_call (length (unhandled w unfiltered))
          (sum_list (map Size (unhandled w unfiltered))) (DryRun w)
        # map (\<lambda>p. Skip_call (Size p)) ?conf\<rparr>"
    and q: "tq_skipped q = map Size ?conf"
    and wk: "working = locally_present env w unfiltered @
               filter (\<lambda>p. \<not> HasUploaded ?w2 (Oid p)) ?M"
    by (auto simp: prepareUpload_eq Let_def)
  have h: "HasUploaded w' = HasUploaded ?w2"
    by (simp add: w' HasUploaded_def fun_eq_iff)
  have t: "trace w' = trace w @ (drop (length (trace w)) (trace w'))"
    by (simp add: w' reconciled_trace)
  have s: "skip_sizes (drop (length (trace w)) (trace w')) = map Size ?conf"
    by (simp add: w' reconciled_trace skip_sizes_append)
  have m: "\<forall>p \<in> set ?M. HasUploaded ?w2 (Oid p) \<longrightarrow> p \<notin> set working"
    by (auto simp: wk locally_present_def locally_missing_def)
  have u: "uploadedOids w' = uploadedOids w \<union>
       set (confirmed_stream env ?M (sum_list (map Size ?M)))"
    by (simp add: w' reconciled_def checkMissing_uploadedOids classify_uploadedOids
          confirmed_stream_def)
  have t': "take (length (trace w)) (trace w') = trace w"
    by (simp add: w' reconciled_trace)
  show ?thesis
    unfolding h using wk t' s q m u by simp
qed

theorem prepareUpload_skips_confirmed_witness:
  "prepareUpload env_confirming (real_world {}) [ptrA, ptrB] =
     (\<lparr>DryRun = False, uploadedOids = {''B''},
       trace = [ObjectExistsOfSize_call ''A'' 1024, ObjectExistsOfSize_call ''B'' 2048,
                NewDownloadCheckQueue_call 1 2048 True, NewDownloadCheckable_Add_call ptrB,
                Watch_call, CheckWait_call, NewUploadQueue_call 2 3072 False, Skip_call 2048]\<rparr>,
      \<lparr>tq_files = 2, tq_size = 3072, tq_dryRun = False, tq_skipped = [2048], tq_added = []\<rparr>,
      [ptrA])
   \<and> locally_missing env_confirming (real_world {}) [ptrA, ptrB] = [ptrB]
   \<and> ptrB \<notin> set [ptrA]"
proof -
  let ?W = "\<lparr>DryRun = False, uploadedOids = {''B''},
       trace = [ObjectExistsOfSize_call ''A'' 1024, ObjectExistsOfSize_call ''B'' 2048,
                NewDownloadCheckQueue_call 1 2048 True, NewDownloadCheckable_Add_call ptrB,
                Watch_call, CheckWait_call, NewUploadQueue_call 2 3072 False, Skip_call 2048]\<rparr>
       :: string world"
  let ?Q = "\<lparr>tq_files = 2, tq_size = 3072, tq_dryRun = False, tq_skipped = [2048],
             tq_added = []\<rparr> :: string TransferQueue"
  have e: "prepareUpload env_confirming (real_world {}) [ptrA, ptrB] = (?W, ?Q, [ptrA])"
    by (simp add: eval_defs env_confirming_def real_world_def ptrA_def ptrB_def)
  have m: "locally_missing env_confirming (real_world {}) [ptrA, ptrB] = [ptrB]"
    by (simp add: locally_missing_def unhandled_def exists_locally_def HasUploaded_def
          env_confirming_def real_world_def ptrA_def ptrB_def)
  have h: "HasUploaded ?W (Oid ptrB)"
    by (simp add: HasUploaded_def ptrB_def)
  have "\<forall>p \<in> set (locally_missing env_confirming (real_world {}) [ptrA, ptrB]).
          HasUploaded ?W (Oid p) \<longrightarrow> p \<notin> set [ptrA]"
    using prepareUpload_skips_confirmed [OF e] by blast
  with m h have "ptrB \<notin> set [ptrA]" by simp
  with e m show ?thesis by simp
qed

section \<open>Counts and sizes\<close>

text \<open>
  Claim C5, as amended. The classification counts the candidates whose oid is not in the
  set; \<open>totalSize\<close> and \<open>missingSize\<close> are the sums of their sizes, and of the sizes of
  the locally-missing ones, in wrapping 64-bit arithmetic; the one transfer queue that is
  made gets exactly that count and that total. When every counted size is non-negative
  and the sizes add up to less than \<open>2 ^ 63\<close>, the total is the sum of the sizes as
  integers and \<open>missingSize \<le> totalSize\<close>.
\<close>

theorem classification_totals:
  "let k = snd (classify env w classification0 unfiltered);
       q = fst (snd (prepareUpload env w unfiltered));
       counted = unhandled w unfiltered
   in numObjects k = length counted
      \<and> totalSize k = sum_list (map Size counted)
      \<and> missingSize k = sum_list (map Size (locally_missing env w unfiltered))
      \<and> tq_files q = numObjects k \<and> tq_size q = totalSize k
      \<and> upload_queues_made (drop (length (trace w)) (trace (fst (prepareUpload env w unfiltered))))
          = [(numObjects k, totalSize k, DryRun w)]
      \<and> ((\<forall>p \<in> set counted. 0 \<le> sint (Size p)) \<and> (\<Sum>p\<leftarrow>counted. sint (Size p)) < 2 ^ 63
           \<longrightarrow> sint (totalSize k) = (\<Sum>p\<leftarrow>counted. sint (Size p))
               \<and> sint (missingSize k) \<le> sint (totalSize k))"
proof -
  let ?C = "unhandled w unfiltered"
  let ?M = "locally_missing env w unfiltered"
  have q: "upload_queues_made (drop (length (trace w)) (trace (fst (prepareUpload env w unfiltered))))
          = [(length ?C, sum_list (map Size ?C), DryRun w)]"
    by (simp add: prepareUpload_eq Let_def reconciled_trace upload_queues_made_append)
  have b: "sint (sum_list (map Size ?C)) = (\<Sum>p\<leftarrow>?C. sint (Size p))
           \<and> sint (sum_list (map Size ?M)) \<le> sint (sum_list (map Size ?C))"
    if nn: "\<forall>p \<in> set ?C. 0 \<le> sint (Size p)" and lt: "(\<Sum>p\<leftarrow>?C. sint (Size p)) < 2 ^ 63"
  proof -
    have t: "sint (sum_list (map Size ?C)) = (\<Sum>p\<leftarrow>?C. sint (Size p))"
      using sint_sum_list [of "map Size ?C"] nn lt by (simp add: comp_def)
    have le: "(\<Sum>p\<leftarrow>?M. sint (Size p)) \<le> (\<Sum>p\<leftarrow>?C. sint (Size p))"
      unfolding locally_missing_def using nn by (intro sum_list_filter_le_int) simp
    have nnM: "\<forall>p \<in> set ?M. 0 \<le> sint (Size p)"
      using nn by (simp add: locally_missing_def)
    have m: "sint (sum_list (map Size ?M)) = (\<Sum>p\<leftarrow>?M. sint (Size p))"
      using sint_sum_list [of "map Size ?M"] nnM le lt by (simp add: comp_def)
    show ?thesis using t m le by simp
  qed
  let ?k = "snd (classify env w classification0 unfiltered)"
  let ?q = "fst (snd (prepareUpload env w unfiltered))"
  have 1: "numObjects ?k = length ?C"
    by (simp add: classify_initial)
  have 2: "totalSize ?k = sum_list (map Size ?C)"
    by (simp add: classify_initial)
  have 3: "missingSize ?k = sum_list (map Size ?M)"
    by (simp add: classify_initial)
  have 4: "tq_files ?q = numObjects ?k"
    by (simp add: classify_initial prepareUpload_eq Let_def)
  have 5: "tq_size ?q = totalSize ?k"
    by (simp add: classify_initial prepareUpload_eq Let_def)
  have 6: "upload_queues_made (drop (length (trace w)) (trace (fst (prepareUpload env w unfiltered))))
          = [(numObjects ?k, totalSize ?k, DryRun w)]"
    unfolding 1 2 by (rule q)
  have 7: "(\<forall>p \<in> set ?C. 0 \<le> sint (Size p)) \<and> (\<Sum>p\<leftarrow>?C. sint (Size p)) < 2 ^ 63
           \<longrightarrow> sint (totalSize ?k) = (\<Sum>p\<leftarrow>?C. sint (Size p))
               \<and> sint (missingSize ?k) \<le> sint (totalSize ?k)"
    unfolding 2 3 using b by blast
  show ?thesis
    unfolding Let_def using 1 2 3 4 5 6 7 by blast
qed

theorem classification_totals_witness:
  "unhandled (real_world {}) [ptrA, ptrB] = [ptrA, ptrB]
   \<and> 0 \<le> sint (Size ptrA) \<and> 0 \<le> sint (Size ptrB)
   \<and> (\<Sum>p\<leftarrow>unhandled (real_world {}) [ptrA, ptrB]. sint (Size p)) = 3072
   \<and> sint (totalSize (snd (classify env_confirming (real_world {}) classification0 [ptrA, ptrB])))
       = 3072
   \<and> sint (missingSize (snd (classify env_confirming (real_world {}) classification0 [ptrA, ptrB])))
       \<le> sint (totalSize (snd (classify env_confirming (real_world {}) classification0 [ptrA, ptrB])))"
proof -
  let ?C = "unhandled (real_world {}) [ptrA, ptrB]"
  let ?k = "snd (classify env_confirming (real_world {}) classification0 [ptrA, ptrB])"
  have c: "?C = [ptrA, ptrB]"
    by (simp add: unhandled_def HasUploaded_def real_world_def)
  have h1: "\<forall>p \<in> set ?C. 0 \<le> sint (Size p)"
    unfolding c by (simp add: ptrA_def ptrB_def)
  have h2: "(\<Sum>p\<leftarrow>?C. sint (Size p)) = 3072"
    unfolding c by (simp add: ptrA_def ptrB_def)
  have h3: "(\<Sum>p\<leftarrow>?C. sint (Size p)) < 2 ^ 63"
    unfolding h2 by simp
  have "(\<forall>p \<in> set ?C. 0 \<le> sint (Size p)) \<and> (\<Sum>p\<leftarrow>?C. sint (Size p)) < 2 ^ 63
           \<longrightarrow> sint (totalSize ?k) = (\<Sum>p\<leftarrow>?C. sint (Size p))
               \<and> sint (missingSize ?k) \<le> sint (totalSize ?k)"
    using classification_totals [of env_confirming "real_world {}" "[ptrA, ptrB]"]
    unfolding Let_def by blast
  with h1 h3 have "sint (totalSize ?k) = (\<Sum>p\<leftarrow>?C. sint (Size p))
               \<and> sint (missingSize ?k) \<le> sint (totalSize ?k)"
    by blast
  with c h1 h2 show ?thesis by simp
qed

text \<open>
  Without those two conditions the inequality of claim C5 fails: an object of size
  \<open>2 ^ 63 - 1\<close> missing locally and an object of size \<open>1\<close> in the local cache make the
  total wrap to \<open>- 2 ^ 63\<close>, which is not the sum and is below \<open>missingSize\<close>; and a
  negative size of a locally-present object puts the total below \<open>missingSize\<close> too.
\<close>

theorem classification_totals_counterexample:
  "\<not> sint (missingSize (snd (classify env_confirming (real_world {}) classification0
              [\<lparr>Oid = ''B'', Name = ''b.bin'', Size = 9223372036854775807\<rparr>,
               \<lparr>Oid = ''A'', Name = ''a.bin'', Size = 1\<rparr>])))
      \<le> sint (totalSize (snd (classify env_confirming (real_world {}) classification0
              [\<lparr>Oid = ''B'', Name = ''b.bin'', Size = 9223372036854775807\<rparr>,
               \<lparr>Oid = ''A'', Name = ''a.bin'', Size = 1\<rparr>])))
   \<and> sint (totalSize (snd (classify env_confirming (real_world {}) classification0
              [\<lparr>Oid = ''B'', Name = ''b.bin'', Size = 9223372036854775807\<rparr>,
               \<lparr>Oid = ''A'', Name = ''a.bin'', Size = 1\<rparr>])))
      \<noteq> 9223372036854775807 + 1
   \<and> \<not> sint (missingSize (snd (classify env_confirming (real_world {}) classification0
              [\<lparr>Oid = ''B'', Name = ''b.bin'', Size = 5\<rparr>,
               \<lparr>Oid = ''A'', Name = ''a.bin'', Size = - 3\<rparr>])))
      \<le> sint (totalSize (snd (classify env_confirming (real_world {}) classification0
              [\<lparr>Oid = ''B'', Name = ''b.bin'', Size = 5\<rparr>,
               \<lparr>Oid = ''A'', Name = ''a.bin'', Size = - 3\<rparr>])))"
  by (simp add: classification0_def HasUploaded_def call_def Let_def env_confirming_def
        real_world_def)

section \<open>An oid that occurs twice in one list\<close>

text \<open>
  Claim C1 at the list \<open>[A, A]\<close> in real mode, \<open>A\<close> being in the local cache and not yet
  marked: both occurrences are counted (two objects, twice the size), both are
  materialized and both are added to the transfer queue, since the classification loop
  tests \<open>HasUploaded\<close> and the oid is marked only in the later loop of \<open>upload\<close>. The
  dry-run branch marks inside the loop that tests, and prints \<open>A\<close> once.
\<close>

theorem duplicate_id_enqueued_twice:
  "upload env_confirming (real_world {}) [ptrA, ptrA] =
     (\<lparr>DryRun = False, uploadedOids = {''A''},
       trace = [ObjectExistsOfSize_call ''A'' 1024, ObjectExistsOfSize_call ''A'' 1024,
                NewUploadQueue_call 2 2048 False,
                NewUploadable_call ''A'' ''a.bin'', Add_call ''A'',
                NewUploadable_call ''A'' ''a.bin'', Add_call ''A'',
                Wait_call]\<rparr>,
      Returned)
   \<and> upload env_confirming (dry_world {}) [ptrA, ptrA] =
     (\<lparr>DryRun = True, uploadedOids = {''A''}, trace = [Print_call ''push A => a.bin'']\<rparr>,
      Returned)"
  by (simp add: eval_defs env_confirming_def real_world_def dry_world_def ptrA_def)

section \<open>Materialization failure\<close>

text \<open>
  Claim C7, as amended. In real mode, let the working list be \<open>pre @ p # post\<close>, where
  every object of \<open>pre\<close> materializes and \<open>p\<close> does not. Then \<open>upload\<close> ends at \<open>p\<close>: the
  objects of \<open>pre\<close> have been materialized, enqueued and marked, the last call is the
  failed \<^verbatim>\<open>NewUploadable\<close> for \<open>p\<close>, and nothing of \<open>post\<close> is materialized or enqueued,
  nor is the queue waited for. When the error carries the pointer-mismatch cause with
  the oid \<open>actual\<close>, the process ends in \<^verbatim>\<open>Exit\<close> with the message
  \<open><oid> does not exist in .git/lfs/objects. Tried <name>, which matches <actual>.\<close>;
  otherwise it ends in \<^verbatim>\<open>ExitWithError\<close> with the error itself.
\<close>

theorem upload_aborts_on_materialization_failure:
  assumes "\<not> DryRun c"
    and "prepareUpload env c unfiltered = (w1, q, pre @ p # post)"
    and "list_all (materializes env) pre"
    and "NewUploadable env (Oid p) (Name p) = Inl err"
  shows "upload env c unfiltered =
     (w1\<lparr>uploadedOids := uploadedOids w1 \<union> Oid ` set pre,
         trace := trace w1 @ concat (map (enqueue_events env) pre)
                    @ [NewUploadable_call (Oid p) (Name p)]\<rparr>,
      case CleanPointerOid err of
        Some actual \<Rightarrow>
          Exit (Oid p @ '' does not exist in .git/lfs/objects. Tried '' @ Name p
                  @ '', which matches '' @ actual @ ''.'')
      | None \<Rightarrow> ExitWithError err)"
proof -
  let ?w = "w1\<lparr>uploadedOids := uploadedOids w1 \<union> Oid ` set pre,
               trace := trace w1 @ concat (map (enqueue_events env) pre)\<rparr>"
  let ?q = "q\<lparr>tq_added := tq_added q @ map (\<lambda>p. projr (NewUploadable env (Oid p) (Name p))) pre\<rparr>"
  let ?out = "case CleanPointerOid err of
        Some actual \<Rightarrow> Exit (uploadMissingErr (Oid p) (Name p) actual)
      | None \<Rightarrow> ExitWithError err"
  have e: "enqueue env w1 q (pre @ p # post) =
             (call (NewUploadable_call (Oid p) (Name p)) ?w, ?q, ?out)"
    unfolding enqueue_append [OF assms(3)] by (rule enqueue_fails [OF assms(4)])
  have n: "?out \<noteq> Returned"
    by (simp split: option.splits)
  have "upload env c unfiltered = (call (NewUploadable_call (Oid p) (Name p)) ?w, ?out)"
    using assms(1) n by (simp add: upload_def assms(2) e del: enqueue.simps)
  then show ?thesis
    by (simp add: call_def uploadMissingErr_def cong: option.case_cong)
qed

theorem upload_aborts_on_materialization_failure_witness:
  "\<not> DryRun (real_world {})
   \<and> prepareUpload env_mismatch (real_world {}) [ptrA, ptrB, ptrD] =
       (\<lparr>DryRun = False, uploadedOids = {},
         trace = [ObjectExistsOfSize_call ''A'' 1024, ObjectExistsOfSize_call ''B'' 2048,
                  ObjectExistsOfSize_call ''D'' 7, NewDownloadCheckQueue_call 2 2055 True,
                  NewDownloadCheckable_Add_call ptrB, NewDownloadCheckable_Add_call ptrD,
                  Watch_call, CheckWait_call, NewUploadQueue_call 3 3079 False]\<rparr>,
        \<lparr>tq_files = 3, tq_size = 3079, tq_dryRun = False, tq_skipped = [], tq_added = []\<rparr>,
        [ptrA] @ ptrB # [ptrD])
   \<and> list_all (materializes env_mismatch) [ptrA]
   \<and> NewUploadable env_mismatch (Oid ptrB) (Name ptrB)
         = Inl (LfsError ''clean failed'' None False (Some ''C''))
   \<and> upload env_mismatch (real_world {}) [ptrA, ptrB, ptrD] =
       (\<lparr>DryRun = False, uploadedOids = {''A''},
         trace = [ObjectExistsOfSize_call ''A'' 1024, ObjectExistsOfSize_call ''B'' 2048,
                  ObjectExistsOfSize_call ''D'' 7, NewDownloadCheckQueue_call 2 2055 True,
                  NewDownloadCheckable_Add_call ptrB, NewDownloadCheckable_Add_call ptrD,
                  Watch_call, CheckWait_call, NewUploadQueue_call 3 3079 False,
                  NewUploadable_call ''A'' ''a.bin'', Add_call ''A'',
                  NewUploadable_call ''B'' ''b.bin'']\<rparr>,
        Exit ''B does not exist in .git/lfs/objects. Tried b.bin, which matches C.'')"
proof -
  let ?W = "\<lparr>DryRun = False, uploadedOids = {},
         trace = [ObjectExistsOfSize_call ''A'' 1024, ObjectExistsOfSize_call ''B'' 2048,
                  ObjectExistsOfSize_call ''D'' 7, NewDownloadCheckQueue_call 2 2055 True,
                  NewDownloadCheckable_Add_call ptrB, NewDownloadCheckable_Add_call ptrD,
                  Watch_call, CheckWait_call, NewUploadQueue_call 3 3079 False]\<rparr> :: string world"
  let ?Q = "\<lparr>tq_files = 3, tq_size = 3079, tq_dryRun = False, tq_skipped = [],
             tq_added = []\<rparr> :: string TransferQueue"
  have r: "\<not> DryRun (real_world {})"
    by (simp add: real_world_def)
  have p: "prepareUpload env_mismatch (real_world {}) [ptrA, ptrB, ptrD] =
             (?W, ?Q, [ptrA] @ ptrB # [ptrD])"
    by (simp add: eval_defs env_mismatch_def real_world_def ptrA_def ptrB_def ptrD_def)
  have m: "list_all (materializes env_mismatch) [ptrA]"
    by (simp add: materializes_def env_mismatch_def ptrA_def)
  have f: "NewUploadable env_mismatch (Oid ptrB) (Name ptrB)
         = Inl (LfsError ''clean failed'' None False (Some ''C''))"
    by (simp add: env_mismatch_def ptrB_def)
  show ?thesis
    using r p m f upload_aborts_on_materialization_failure [OF r p m f]
    by (simp add: enqueue_events_def env_mismatch_def ptrA_def ptrB_def)
qed

text \<open>
  The message is not the one claim C7 quotes: for the object \<open>B\<close>, named \<open>b.bin\<close>, whose
  regeneration produced \<open>C\<close>, the code's text differs from the specification's.
\<close>

theorem missing_message_counterexample:
  "snd (upload env_mismatch (real_world {}) [ptrA, ptrB]) =
     Exit ''B does not exist in .git/lfs/objects. Tried b.bin, which matches C.''
   \<and> snd (upload env_mismatch (real_world {}) [ptrA, ptrB]) \<noteq>
     Exit (spec_missing_message (Oid ptrB) (Name ptrB) ''C'')"
  by (simp add: eval_defs env_mismatch_def real_world_def ptrA_def ptrB_def
        spec_missing_message_def)

section \<open>Reporting the transfer errors\<close>

text \<open>
  Claim C8, as amended. In real mode, when every object of the working list has been
  enqueued, \<open>upload\<close> waits for the queue and then reports every error of
  \<^verbatim>\<open>q.Errors()\<close>, in order, none stopping the loop; the process ends in
  \<^verbatim>\<open>os.Exit(2)\<close> when the error list is not empty, and \<open>upload\<close> returns when it is
  empty. An error that is flagged fatal, or any error while \<^verbatim>\<open>Debugging\<close> is set, is
  reported by one \<^verbatim>\<open>LoggedError\<close> with its message; a non-fatal error while
  \<^verbatim>\<open>Debugging\<close> is not set is reported by \<^verbatim>\<open>Error\<close> of its inner cause, when it has
  one, followed by \<^verbatim>\<open>Error\<close> of its own message.
\<close>

theorem upload_drains_errors:
  assumes "\<not> DryRun c"
    and "prepareUpload env c unfiltered = (w1, q, pointers)"
    and "enqueue env w1 q pointers = (w2, q2, Returned)"
  shows "upload env c unfiltered =
           (w2\<lparr>trace := trace w2 @ Wait_call
                           # concat (map (report_one (Debugging env)) (Errors env q2))\<rparr>,
            if Errors env q2 = [] then Returned else os_Exit 2)
         \<and> (Debugging env \<or> IsFatalError err \<longrightarrow>
               report_one (Debugging env) err = [LoggedError_call err (ErrorMsg err)])
         \<and> (\<not> Debugging env \<and> \<not> IsFatalError err \<longrightarrow>
               report_one (Debugging env) err =
                 (case GetInnerError err of Some inner \<Rightarrow> [Error_call inner] | None \<Rightarrow> [])
                 @ [Error_call (ErrorMsg err)])"
  using assms by (simp add: upload_def report_eq call_def report_one_def)

theorem upload_drains_errors_witness:
  "\<not> DryRun (real_world {})
   \<and> \<not> Debugging (env_failing False)
   \<and> IsFatalError err_fatal \<and> \<not> IsFatalError err_not_found
   \<and> upload (env_failing False) (real_world {}) [ptrA] =
       (\<lparr>DryRun = False, uploadedOids = {''A''},
         trace = [ObjectExistsOfSize_call ''A'' 1024, NewUploadQueue_call 1 1024 False,
                  NewUploadable_call ''A'' ''a.bin'', Add_call ''A'', Wait_call,
                  LoggedError_call err_fatal ''boom'',
                  Error_call ''404'', Error_call ''not found'']\<rparr>,
        os_Exit 2)"
proof -
  let ?W1 = "\<lparr>DryRun = False, uploadedOids = {},
         trace = [ObjectExistsOfSize_call ''A'' 1024, NewUploadQueue_call 1 1024 False]\<rparr>
         :: string world"
  let ?Q1 = "\<lparr>tq_files = 1, tq_size = 1024, tq_dryRun = False, tq_skipped = [],
             tq_added = []\<rparr> :: string TransferQueue"
  let ?W2 = "\<lparr>DryRun = False, uploadedOids = {''A''},
         trace = [ObjectExistsOfSize_call ''A'' 1024, NewUploadQueue_call 1 1024 False,
                  NewUploadable_call ''A'' ''a.bin'', Add_call ''A'']\<rparr> :: string world"
  let ?Q2 = "\<lparr>tq_files = 1, tq_size = 1024, tq_dryRun = False, tq_skipped = [],
             tq_added = [''A'']\<rparr> :: string TransferQueue"
  have r: "\<not> DryRun (real_world {})"
    by (simp add: real_world_def)
  have p: "prepareUpload (env_failing False) (real_world {}) [ptrA] = (?W1, ?Q1, [ptrA])"
    by (simp add: eval_defs env_failing_def real_world_def ptrA_def)
  have e: "enqueue (env_failing False) ?W1 ?Q1 [ptrA] = (?W2, ?Q2, Returned)"
    by (simp add: eval_defs env_failing_def ptrA_def)
  have d: "\<not> Debugging (env_failing False)"
    by (simp add: env_failing_def)
  have f: "IsFatalError err_fatal \<and> \<not> IsFatalError err_not_found"
    by (simp add: err_fatal_def err_not_found_def)
  show ?thesis
    using r d f upload_drains_errors [OF r p e, of err_not_found]
    by (simp add: env_failing_def report_one_def err_fatal_def err_not_found_def)
qed

text \<open>
  With \<^verbatim>\<open>Debugging\<close> set, a non-fatal error with an inner cause is reported by
  \<^verbatim>\<open>LoggedError\<close> alone, and its inner cause is not reported, other than claim C8 says
  of every non-fatal error.
\<close>

theorem debugging_report_counterexample:
  "\<not> IsFatalError err_not_found
   \<and> GetInnerError err_not_found = Some ''404''
   \<and> upload (env_failing True) (real_world {}) [ptrA] =
       (\<lparr>DryRun = False, uploadedOids = {''A''},
         trace = [ObjectExistsOfSize_call ''A'' 1024, NewUploadQueue_call 1 1024 False,
                  NewUploadable_call ''A'' ''a.bin'', Add_call ''A'', Wait_call,
                  LoggedError_call err_fatal ''boom'',
                  LoggedError_call err_not_found ''not found'']\<rparr>,
        os_Exit 2)
   \<and> Error_call ''404'' \<notin> set (trace (fst (upload (env_failing True) (real_world {}) [ptrA])))"
  by (simp add: eval_defs env_failing_def real_world_def ptrA_def err_fatal_def
        err_not_found_def)

end
